theory Spec2Isabelle
  imports Complex_Main
begin

section \<open>Hatch generator: geometry primitives\<close>

text \<open>
  Shallow embedding of \<^verbatim>\<open>src/include/geometry.h\<close>, \<^verbatim>\<open>src/src/geometry.cpp\<close> and of the
  bounding-box part of \<^verbatim>\<open>src/src/svg_writer.cpp\<close>.  The hatch generator is modelled in exact
  arithmetic: the C++ type \<^verbatim>\<open>double\<close> is \<^typ>\<open>real\<close> there, so \<open>Point_plus\<close>, the line
  constructors, \<open>linesIntersection\<close> and \<open>isInSegment\<close> compute without rounding.  The
  program agrees with this model where none of its operations rounds; where they do it can
  differ (a sum \<^verbatim>\<open>point + hatchNorm\<close> that rounds back to \<^verbatim>\<open>point\<close> repeats a probe, a product
  that underflows changes a comparison).  The section on double precision models the
  rounding of IEEE 754 binary64 and gives \<^verbatim>\<open>isInSegment\<close> and the scale of the renderer
  with every operation rounded.  The field names of the C++ structs are prefixed with a
  letter for their struct (\<^verbatim>\<open>Point::x\<close> is \<open>px\<close>, \<^verbatim>\<open>Vector::x\<close> is \<open>vx\<close>, \<^verbatim>\<open>Line::a\<close> is
  \<open>la\<close>, \<^verbatim>\<open>Segment::a\<close> is \<open>sa\<close>), since the structs share field names.
\<close>

definition EPS :: real where
  "EPS = 1 / 10 ^ 7"

record Point =
  px :: real
  py :: real

record Vector =
  vx :: real
  vy :: real

record Line =
  la :: real
  lb :: real
  lc :: real

record Segment =
  sa :: Point
  sb :: Point
  line :: Line

text \<open>The constructors of the structs.\<close>

definition mkPoint :: "real \<Rightarrow> real \<Rightarrow> Point" where
  "mkPoint x y = \<lparr>px = x, py = y\<rparr>"

definition mkVector :: "real \<Rightarrow> real \<Rightarrow> Vector" where
  "mkVector x y = \<lparr>vx = x, vy = y\<rparr>"

text \<open>\<^verbatim>\<open>Vector(const Point &p1, const Point &p2)\<close>: the vector from \<open>p1\<close> to \<open>p2\<close>.\<close>

definition Vector_pp :: "Point \<Rightarrow> Point \<Rightarrow> Vector" where
  "Vector_pp p1 p2 = \<lparr>vx = px p2 - px p1, vy = py p2 - py p1\<rparr>"

text \<open>\<^verbatim>\<open>Line(const Point &p1, const Point &p2)\<close>: the line through two points.\<close>

definition Line_pp :: "Point \<Rightarrow> Point \<Rightarrow> Line" where
  "Line_pp p1 p2 =
     \<lparr>la = py p1 - py p2, lb = px p2 - px p1, lc = px p1 * py p2 - px p2 * py p1\<rparr>"

text \<open>\<^verbatim>\<open>Line(const Vector &norm, const Point &p)\<close>: the line through \<open>p\<close> with normal \<open>nrm\<close>.\<close>

definition Line_np :: "Vector \<Rightarrow> Point \<Rightarrow> Line" where
  "Line_np nrm p = \<lparr>la = vx nrm, lb = vy nrm, lc = - vx nrm * px p - vy nrm * py p\<rparr>"

text \<open>\<^verbatim>\<open>Segment(const Point &p1, const Point &p2)\<close>.\<close>

definition mkSegment :: "Point \<Rightarrow> Point \<Rightarrow> Segment" where
  "mkSegment p1 p2 = \<lparr>sa = p1, sb = p2, line = Line_pp p1 p2\<rparr>"

text \<open>\<^verbatim>\<open>Point::operator+\<close> and \<^verbatim>\<open>Vector::operator*\<close>.\<close>

definition Point_plus :: "Point \<Rightarrow> Vector \<Rightarrow> Point" where
  "Point_plus p v = mkPoint (px p + vx v) (py p + vy v)"

definition Vector_times :: "Vector \<Rightarrow> real \<Rightarrow> Vector" where
  "Vector_times v c = mkVector (vx v * c) (vy v * c)"

text \<open>
  \<^verbatim>\<open>struct Rectangle { std::array<Point, 4> points; }\<close>: an array of exactly four points,
  read by index.  The code only uses the indices 0 to 3.
\<close>

datatype Rectangle = Rectangle Point Point Point Point

fun points :: "Rectangle \<Rightarrow> nat \<Rightarrow> Point" where
  "points (Rectangle q0 q1 q2 q3) i =
     (if i = 0 then q0 else if i = 1 then q1 else if i = 2 then q2 else q3)"

definition points_size :: nat where
  "points_size = 4"

text \<open>
  \<^verbatim>\<open>Rectangle::toSegments\<close>: first \<^verbatim>\<open>res.emplace_back(points[0], points[size - 1])\<close>, then
  the loop \<^verbatim>\<open>for (i = 0; i < size - 1; i++) res.emplace_back(points[i], points[i + 1])\<close>.
\<close>

definition toSegments :: "Rectangle \<Rightarrow> Segment list" where
  "toSegments r =
     mkSegment (points r 0) (points r (points_size - 1))
       # map (\<lambda>i. mkSegment (points r i) (points r (i + 1))) [0 ..< points_size - 1]"

definition crossProduct :: "Vector \<Rightarrow> Vector \<Rightarrow> real" where
  "crossProduct v1 v2 = vx v1 * vy v2 - vy v1 * vx v2"

definition dotProduct :: "Vector \<Rightarrow> Vector \<Rightarrow> real" where
  "dotProduct v1 v2 = vx v1 * vx v2 + vy v1 * vy v2"

definition distance2 :: "Point \<Rightarrow> Point \<Rightarrow> real" where
  "distance2 p1 p2 = (px p1 - px p2) * (px p1 - px p2) + (py p1 - py p2) * (py p1 - py p2)"

definition normOf :: "Line \<Rightarrow> Vector" where
  "normOf l = mkVector (la l) (lb l)"

definition isLinesSameOrParallel :: "Line \<Rightarrow> Line \<Rightarrow> bool" where
  "isLinesSameOrParallel l1 l2 =
     (let norm1 = normOf l1; norm2 = normOf l2
      in \<bar>crossProduct norm1 norm2\<bar> < EPS)"

text \<open>
  \<^verbatim>\<open>linesIntersection\<close> divides by the determinant without a check (``should be checked
  before calling'').  In HOL \<open>x / 0 = 0\<close>, in C++ the quotient is infinite or NaN: the
  model is only meaningful where the determinant is not zero, which is how
  \<^verbatim>\<open>generateHatch\<close> calls it.
\<close>

definition linesIntersection :: "Line \<Rightarrow> Line \<Rightarrow> Point" where
  "linesIntersection l1 l2 =
     (let d = la l1 * lb l2 - la l2 * lb l1;
          dx = lb l1 * lc l2 - lb l2 * lc l1;
          dy = lc l1 * la l2 - lc l2 * la l1
      in mkPoint (dx / d) (dy / d))"

definition isInSegment :: "Point \<Rightarrow> Segment \<Rightarrow> bool" where
  "isInSegment p s =
     (let AB = Vector_pp (sa s) (sb s);
          AP = Vector_pp (sa s) p;
          PB = Vector_pp p (sb s)
      in \<bar>crossProduct AB AP\<bar> < EPS \<and> 0 < dotProduct AB AP \<and> 0 < dotProduct AB PB)"


section \<open>The hatch generator\<close>

text \<open>
  \<^verbatim>\<open>generateHatch\<close> reads \<^verbatim>\<open>intersections.front()\<close>, \<^verbatim>\<open>intersections[1]\<close> and the indices
  \<^verbatim>\<open>farthest1\<close>, \<^verbatim>\<open>farthest2\<close> without a check.  A read outside the vector and a read of
  an index that was never assigned are undefined behaviour in C++; the model stops there
  with an error value.
\<close>

datatype error = OutOfBounds | Uninitialized

text \<open>
  The first inner loop: the intersection of the hatch line with the line of every edge
  that is not parallel to it, in the order of the edges.
\<close>

definition collectIntersections :: "Segment list \<Rightarrow> Line \<Rightarrow> Point list" where
  "collectIntersections rectSegments hatchLine =
     map (\<lambda>segment. linesIntersection (line segment) hatchLine)
       (filter (\<lambda>segment. \<not> isLinesSameOrParallel (line segment) hatchLine) rectSegments)"

text \<open>
  The farthest-pair scan.  Its state is \<^verbatim>\<open>maxDistance2\<close>, \<^verbatim>\<open>farthest1\<close>, \<^verbatim>\<open>farthest2\<close>; the
  two indices are declared without an initial value, which is \<open>None\<close> here.  The pairs
  \<open>(i, j)\<close> are visited in the order of the two nested \<^verbatim>\<open>for\<close> loops.
\<close>

type_synonym scan = "real \<times> nat option \<times> nat option"

definition scanPairs :: "nat \<Rightarrow> (nat \<times> nat) list" where
  "scanPairs n = concat (map (\<lambda>i. map (\<lambda>j. (i, j)) [i + 1 ..< n]) [0 ..< n])"

definition scanStep :: "Point list \<Rightarrow> scan \<Rightarrow> nat \<times> nat \<Rightarrow> scan" where
  "scanStep intersections st ij =
     (let d = distance2 (intersections ! fst ij) (intersections ! snd ij)
      in if fst st < d then (d, Some (fst ij), Some (snd ij)) else st)"

definition farthestScan :: "Point list \<Rightarrow> scan" where
  "farthestScan intersections =
     foldl (scanStep intersections) (0, None, None) (scanPairs (length intersections))"

text \<open>\<^verbatim>\<open>v.erase(v.begin() + i)\<close>: defined only for an index inside the vector.\<close>

definition erase :: "'a list \<Rightarrow> nat \<Rightarrow> error + 'a list" where
  "erase xs i = (if i < length xs then Inr (take i xs @ drop (Suc i) xs) else Inl OutOfBounds)"

text \<open>The block \<^verbatim>\<open>if (intersections.size() == 4) { ... }\<close>.\<close>

definition reduceFour :: "Point list \<Rightarrow> error + Point list" where
  "reduceFour intersections =
     (if length intersections = 4 then
        (case farthestScan intersections of
           (m, Some farthest1, Some farthest2) \<Rightarrow>
             (case erase intersections farthest2 of
                Inl e \<Rightarrow> Inl e
              | Inr rest \<Rightarrow> erase rest farthest1)
         | _ \<Rightarrow> Inl Uninitialized)
      else Inr intersections)"

text \<open>
  The validity loop over the edges: \<^verbatim>\<open>intersections.front()\<close> is read for every edge
  visited, \<^verbatim>\<open>intersections[0]\<close> and \<^verbatim>\<open>intersections[1]\<close> once the front point lies in an
  edge, and the loop stops there.  The result is the segment to append, if any.
\<close>

fun checkValid :: "Segment list \<Rightarrow> Point list \<Rightarrow> error + Segment option" where
  "checkValid [] intersections = Inr None"
| "checkValid (segment # rest) intersections =
     (case intersections of
        [] \<Rightarrow> Inl OutOfBounds
      | front # others \<Rightarrow>
          if isInSegment front segment then
            (case others of
               [] \<Rightarrow> Inl OutOfBounds
             | second # _ \<Rightarrow> Inr (Some (mkSegment front second)))
          else checkValid rest intersections)"

text \<open>One probe: collect, reduce, check.\<close>

definition probe :: "Segment list \<Rightarrow> Line \<Rightarrow> error + Segment option" where
  "probe rectSegments hatchLine =
     (case reduceFour (collectIntersections rectSegments hatchLine) of
        Inl e \<Rightarrow> Inl e
      | Inr intersections \<Rightarrow> checkValid rectSegments intersections)"

text \<open>The variables of the \<^verbatim>\<open>while\<close> loop.\<close>

record SweepState =
  forward :: bool
  isContinue :: bool
  firstIter :: bool
  point :: Point
  hatchNorm :: Vector
  res :: "Segment list"

text \<open>One iteration of the body of \<^verbatim>\<open>while (forward || isContinue)\<close>.\<close>

definition iteration :: "Rectangle \<Rightarrow> Segment list \<Rightarrow> SweepState \<Rightarrow> error + SweepState" where
  "iteration rect rectSegments st =
     (let hatchLine = Line_np (hatchNorm st) (point st)
      in case probe rectSegments hatchLine of
           Inl e \<Rightarrow> Inl e
         | Inr found \<Rightarrow>
             (let st1 = (case found of
                           Some seg \<Rightarrow> st\<lparr>isContinue := True, res := res st @ [seg]\<rparr>
                         | None \<Rightarrow> st\<lparr>isContinue := False\<rparr>);
                  st2 = (if \<not> isContinue st1 \<and> forward st1 \<and> \<not> firstIter st1
                         then st1\<lparr>forward := False,
                                  hatchNorm := Vector_times (hatchNorm st1) (- 1),
                                  point := points rect 0,
                                  isContinue := True\<rparr>
                         else st1)
              in Inr (st2\<lparr>firstIter := False,
                          point := Point_plus (point st2) (hatchNorm st2)\<rparr>)))"

text \<open>
  The loop itself.  Nothing in the code bounds the number of iterations, so the loop is
  a partial function: \<open>None\<close> is the loop that never ends.
\<close>

partial_function (option) sweep ::
  "Rectangle \<Rightarrow> Segment list \<Rightarrow> SweepState \<Rightarrow> (error + Segment list) option" where
  "sweep rect rectSegments st =
     (if forward st \<or> isContinue st then
        (case iteration rect rectSegments st of
           Inl e \<Rightarrow> Some (Inl e)
         | Inr st' \<Rightarrow> sweep rect rectSegments st')
      else Some (Inr (res st)))"

definition initialState :: "Rectangle \<Rightarrow> Vector \<Rightarrow> SweepState" where
  "initialState rect hn =
     \<lparr>forward = True, isContinue = False, firstIter = True,
      point = points rect 0, hatchNorm = hn, res = []\<rparr>"

definition generateHatch :: "Rectangle \<Rightarrow> real \<Rightarrow> real \<Rightarrow> (error + Segment list) option" where
  "generateHatch rect angle step =
     (let rad = angle * pi / 180;
          hn = Vector_times (mkVector (sin rad) (cos rad)) step;
          rectSegments = toSegments rect
      in sweep rect rectSegments (initialState rect hn))"

section \<open>Double precision\<close>

text \<open>
  A value of the C++ type \<^verbatim>\<open>double\<close>: a finite number, an infinity or a NaN.  The two
  zeros are one value; the operations below give the same result for both, except the
  division by zero, which is only modelled for the divisor \<open>+0\<close>.
\<close>

datatype double = Finite real | PosInf | NegInf | NaN

text \<open>
  Rounding to the nearest binary64 number, ties to the even significand.  The exponent
  of the last place is that of the binade of \<open>x\<close>, at least \<open>- 1074\<close> (the subnormal
  numbers); the quotient by the unit in the last place is rounded to an integer; a result
  of magnitude \<open>2\<^sup>1\<^sup>0\<^sup>2\<^sup>4\<close> is an overflow.
\<close>

definition roundEven :: "real \<Rightarrow> int" where
  "roundEven q =
     (let f = \<lfloor>q\<rfloor>
      in if q - of_int f < 1 / 2 then f
         else if 1 / 2 < q - of_int f then f + 1
         else if even f then f else f + 1)"

definition ulpExp :: "real \<Rightarrow> int" where
  "ulpExp x = max (\<lfloor>log 2 \<bar>x\<bar>\<rfloor> - 52) (- 1074)"

definition toDouble :: "real \<Rightarrow> double" where
  "toDouble x =
     (if x = 0 then Finite 0
      else let e = ulpExp x;
               y = of_int (roundEven (x / 2 powi e)) * 2 powi e
           in if 2 ^ 1024 \<le> y then PosInf
              else if y \<le> - (2 ^ 1024) then NegInf
              else Finite y)"


fun dsub :: "double \<Rightarrow> double \<Rightarrow> double" where
  "dsub NaN b = NaN"
| "dsub a NaN = NaN"
| "dsub PosInf PosInf = NaN"
| "dsub NegInf NegInf = NaN"
| "dsub PosInf b = PosInf"
| "dsub a PosInf = NegInf"
| "dsub NegInf b = NegInf"
| "dsub a NegInf = PosInf"
| "dsub (Finite a) (Finite b) = toDouble (a - b)"


fun ddiv :: "double \<Rightarrow> double \<Rightarrow> double" where
  "ddiv NaN b = NaN"
| "ddiv a NaN = NaN"
| "ddiv (Finite a) (Finite b) =
     (if b = 0 then (if a = 0 then NaN else if 0 < a then PosInf else NegInf)
      else toDouble (a / b))"
| "ddiv (Finite a) b = Finite 0"
| "ddiv a (Finite b) = (if (0 \<le> b) = (a = PosInf) then PosInf else NegInf)"
| "ddiv a b = NaN"


fun dless :: "double \<Rightarrow> double \<Rightarrow> bool" where
  "dless NaN b = False"
| "dless a NaN = False"
| "dless a NegInf = False"
| "dless PosInf b = False"
| "dless NegInf b = True"
| "dless a PosInf = True"
| "dless (Finite a) (Finite b) = (a < b)"

definition dmin :: "double \<Rightarrow> double \<Rightarrow> double" where
  "dmin a b = (if dless b a then b else a)"

















section \<open>The bounding box of the renderer\<close>

datatype LineFormat = CONTOUR | HATCH

text \<open>
  \<^verbatim>\<open>std::numeric_limits<double>::max()\<close> is the largest finite double,
  \<^verbatim>\<open>std::numeric_limits<double>::min()\<close> the smallest positive normalised double.
\<close>

definition DBL_MAX :: real where
  "DBL_MAX = (2 ^ 53 - 1) * 2 ^ 971"

definition DBL_MIN :: real where
  "DBL_MIN = 1 / 2 ^ 1022"

text \<open>
  \<^verbatim>\<open>SVGWriter\<close>: the map \<^verbatim>\<open>formatSegments\<close> is a list of its entries, in the order the
  iteration visits them, with the canvas size.
\<close>

record SVGWriter =
  formatSegments :: "(LineFormat \<times> Segment list) list"
  width :: real
  height :: real

record BoundingBox =
  minX :: real
  minY :: real
  maxX :: real
  maxY :: real

definition initialBox :: BoundingBox where
  "initialBox = \<lparr>minX = DBL_MAX, minY = DBL_MAX, maxX = DBL_MIN, maxY = DBL_MIN\<rparr>"

definition boxStep :: "BoundingBox \<Rightarrow> Segment \<Rightarrow> BoundingBox" where
  "boxStep bb segment =
     \<lparr>minX = min (min (minX bb) (px (sa segment))) (px (sb segment)),
      minY = min (min (minY bb) (py (sa segment))) (py (sb segment)),
      maxX = max (max (maxX bb) (px (sa segment))) (px (sb segment)),
      maxY = max (max (maxY bb) (py (sa segment))) (py (sb segment))\<rparr>"

definition boundingBox :: "(LineFormat \<times> Segment list) list \<Rightarrow> BoundingBox" where
  "boundingBox fs = foldl (\<lambda>bb pair. foldl boxStep bb (snd pair)) initialBox fs"

text \<open>
  The scale of \<^verbatim>\<open>draw\<close>: \<^verbatim>\<open>std::min(width / w, height / h)\<close> with \<^verbatim>\<open>w = maxX - minX\<close> and
  \<^verbatim>\<open>h = maxY - minY\<close>, every operation rounded.  A box of zero width has \<open>w = +0\<close> and an
  infinite quotient.
\<close>

definition drawScale :: "SVGWriter \<Rightarrow> double" where
  "drawScale wr =
     (let bb = boundingBox (formatSegments wr);
          w = dsub (Finite (maxX bb)) (Finite (minX bb));
          h = dsub (Finite (maxY bb)) (Finite (minY bb))
      in dmin (ddiv (Finite (width wr)) w) (ddiv (Finite (height wr)) h))"


section \<open>Notions used to state the properties\<close>

text \<open>
  A quadrilateral is convex (and not degenerate) when the four turns at its corners,
  taken around the boundary, are all strictly to the same side.
\<close>

definition turn :: "Point \<Rightarrow> Point \<Rightarrow> Point \<Rightarrow> real" where
  "turn a b c = crossProduct (Vector_pp a b) (Vector_pp b c)"

definition convexQuad :: "Rectangle \<Rightarrow> bool" where
  "convexQuad r =
     (let t0 = turn (points r 0) (points r 1) (points r 2);
          t1 = turn (points r 1) (points r 2) (points r 3);
          t2 = turn (points r 2) (points r 3) (points r 0);
          t3 = turn (points r 3) (points r 0) (points r 1)
      in (0 < t0 \<and> 0 < t1 \<and> 0 < t2 \<and> 0 < t3) \<or> (t0 < 0 \<and> t1 < 0 \<and> t2 < 0 \<and> t3 < 0))"

section \<open>Inputs used in the evaluations below\<close>

definition square10 :: Rectangle where
  "square10 = Rectangle (mkPoint 0 0) (mkPoint 10 0) (mkPoint 10 10) (mkPoint 0 10)"

definition negativeSquare :: Rectangle where
  "negativeSquare =
     Rectangle (mkPoint (- 10) (- 10)) (mkPoint (- 5) (- 10)) (mkPoint (- 5) (- 5))
       (mkPoint (- 10) (- 5))"

definition unitSquare :: Rectangle where
  "unitSquare = Rectangle (mkPoint 0 0) (mkPoint 1 0) (mkPoint 1 1) (mkPoint 0 1)"

text \<open>
  A convex quadrilateral whose edges \<open>points[0]\<close>--\<open>points[1]\<close>, \<open>points[1]\<close>--\<open>points[2]\<close>
  and \<open>points[2]\<close>--\<open>points[3]\<close> each rise by less than \<open>EPS\<close>.
\<close>

definition thinQuad :: Rectangle where
  "thinQuad =
     Rectangle (mkPoint 0 0) (mkPoint 1 (9 / 10 ^ 8)) (mkPoint (1 / 2) (18 / 10 ^ 8))
       (mkPoint (- 1) (27 / 10 ^ 8))"

definition fourOnALine :: "Point list" where
  "fourOnALine = [mkPoint 0 0, mkPoint 3 0, mkPoint 1 0, mkPoint 2 0]"

definition fourCoincident :: "Point list" where
  "fourCoincident = [mkPoint 1 1, mkPoint 1 1, mkPoint 1 1, mkPoint 1 1]"

section \<open>Basic facts\<close>

lemmas geom_defs = mkPoint_def mkVector_def Vector_pp_def Line_pp_def Line_np_def mkSegment_def
  Point_plus_def Vector_times_def crossProduct_def dotProduct_def distance2_def normOf_def
  isLinesSameOrParallel_def linesIntersection_def isInSegment_def EPS_def

lemmas hatch_defs = generateHatch_def initialState_def iteration_def probe_def
  collectIntersections_def reduceFour_def

lemma toSegments_list:
  "toSegments (Rectangle q0 q1 q2 q3) =
     [mkSegment q0 q3, mkSegment q0 q1, mkSegment q1 q2, mkSegment q2 q3]"
  by (simp add: toSegments_def points_size_def upt_rec)


lemma intersection_on_lines:
  assumes d: "la l1 * lb l2 - la l2 * lb l1 \<noteq> 0"
  shows "la l1 * px (linesIntersection l1 l2) + lb l1 * py (linesIntersection l1 l2) + lc l1 = 0"
    and "la l2 * px (linesIntersection l1 l2) + lb l2 * py (linesIntersection l1 l2) + lc l2 = 0"
proof -
  define dt where "dt = la l1 * lb l2 - la l2 * lb l1"
  define dx where "dx = lb l1 * lc l2 - lb l2 * lc l1"
  define dy where "dy = lc l1 * la l2 - lc l2 * la l1"
  have P: "px (linesIntersection l1 l2) = dx / dt" "py (linesIntersection l1 l2) = dy / dt"
    by (simp_all add: linesIntersection_def mkPoint_def Let_def dt_def dx_def dy_def)
  have dt0: "dt \<noteq> 0" using d by (simp add: dt_def)
  have n1: "la l1 * dx + lb l1 * dy + lc l1 * dt = 0"
    by (simp add: dt_def dx_def dy_def algebra_simps)
  have n2: "la l2 * dx + lb l2 * dy + lc l2 * dt = 0"
    by (simp add: dt_def dx_def dy_def algebra_simps)
  have "la l1 * (dx / dt) + lb l1 * (dy / dt) + lc l1 = (la l1 * dx + lb l1 * dy + lc l1 * dt) / dt"
    using dt0 by (simp add: add_divide_distrib)
  then show "la l1 * px (linesIntersection l1 l2) + lb l1 * py (linesIntersection l1 l2) + lc l1 = 0"
    using n1 P by simp
  have "la l2 * (dx / dt) + lb l2 * (dy / dt) + lc l2 = (la l2 * dx + lb l2 * dy + lc l2 * dt) / dt"
    using dt0 by (simp add: add_divide_distrib)
  then show "la l2 * px (linesIntersection l1 l2) + lb l2 * py (linesIntersection l1 l2) + lc l2 = 0"
    using n2 P by simp
qed

lemma DBL_MIN_pos: "0 < DBL_MIN"
  by (simp add: DBL_MIN_def)

lemma DBL_MAX_pos: "0 < DBL_MAX"
  by (simp add: DBL_MAX_def)

lemma scanPairs_4: "scanPairs 4 = [(0, 1), (0, 2), (0, 3), (1, 2), (1, 3), (2, 3)]"
  by (simp add: scanPairs_def upt_rec)

lemma distance2_sym: "distance2 p q = distance2 q p"
  by (simp add: distance2_def algebra_simps)

lemma distance2_nonneg: "0 \<le> distance2 p q"
  by (simp add: distance2_def)

lemma distance2_self: "distance2 p p = 0"
  by (simp add: distance2_def)

lemma distance2_zero_iff: "distance2 p q = 0 \<longleftrightarrow> p = q"
  by (auto simp: distance2_def Point.equality)

lemma scan_fold:
  "\<exists>m a b. foldl (scanStep pts) (m0, a0, b0) ps = (m, a, b) \<and>
     ((m = m0 \<and> a = a0 \<and> b = b0 \<and>
        (\<forall>ij\<in>set ps. distance2 (pts ! fst ij) (pts ! snd ij) \<le> m0)) \<or>
      (\<exists>pre i j post. ps = pre @ (i, j) # post \<and> a = Some i \<and> b = Some j \<and>
         m = distance2 (pts ! i) (pts ! j) \<and> m0 < m \<and>
         (\<forall>ij\<in>set pre. distance2 (pts ! fst ij) (pts ! snd ij) < m) \<and>
         (\<forall>ij\<in>set post. distance2 (pts ! fst ij) (pts ! snd ij) \<le> m)))"
proof (induction ps rule: rev_induct)
  case Nil
  then show ?case by simp
next
  case (snoc x ps)
  then obtain m a b where f: "foldl (scanStep pts) (m0, a0, b0) ps = (m, a, b)"
    and c: "(m = m0 \<and> a = a0 \<and> b = b0 \<and>
        (\<forall>ij\<in>set ps. distance2 (pts ! fst ij) (pts ! snd ij) \<le> m0)) \<or>
      (\<exists>pre i j post. ps = pre @ (i, j) # post \<and> a = Some i \<and> b = Some j \<and>
         m = distance2 (pts ! i) (pts ! j) \<and> m0 < m \<and>
         (\<forall>ij\<in>set pre. distance2 (pts ! fst ij) (pts ! snd ij) < m) \<and>
         (\<forall>ij\<in>set post. distance2 (pts ! fst ij) (pts ! snd ij) \<le> m))"
    by blast
  define dx where "dx = distance2 (pts ! fst x) (pts ! snd x)"
  have le: "m0 \<le> m" using c by auto
  have all: "\<forall>ij\<in>set ps. distance2 (pts ! fst ij) (pts ! snd ij) \<le> m"
  proof
    fix ij assume ij: "ij \<in> set ps"
    from c show "distance2 (pts ! fst ij) (pts ! snd ij) \<le> m"
    proof
      assume "m = m0 \<and> a = a0 \<and> b = b0 \<and>
        (\<forall>ij\<in>set ps. distance2 (pts ! fst ij) (pts ! snd ij) \<le> m0)"
      then show ?thesis using ij by blast
    next
      assume "\<exists>pre i j post. ps = pre @ (i, j) # post \<and> a = Some i \<and> b = Some j \<and>
         m = distance2 (pts ! i) (pts ! j) \<and> m0 < m \<and>
         (\<forall>ij\<in>set pre. distance2 (pts ! fst ij) (pts ! snd ij) < m) \<and>
         (\<forall>ij\<in>set post. distance2 (pts ! fst ij) (pts ! snd ij) \<le> m)"
      then obtain pre i j post where h: "ps = pre @ (i, j) # post"
         "m = distance2 (pts ! i) (pts ! j)"
         "\<forall>ij\<in>set pre. distance2 (pts ! fst ij) (pts ! snd ij) < m"
         "\<forall>ij\<in>set post. distance2 (pts ! fst ij) (pts ! snd ij) \<le> m"
        by blast
      from ij h(1) have "ij \<in> set pre \<or> ij = (i, j) \<or> ij \<in> set post" by auto
      then show ?thesis
      proof (elim disjE)
        assume "ij \<in> set pre"
        then have "distance2 (pts ! fst ij) (pts ! snd ij) < m" using h(3) by blast
        then show ?thesis by simp
      next
        assume "ij = (i, j)"
        then show ?thesis using h(2) by simp
      next
        assume "ij \<in> set post"
        then show ?thesis using h(4) by blast
      qed
    qed
  qed
  show ?case
  proof (cases "m < dx")
    case True
    have fr: "foldl (scanStep pts) (m0, a0, b0) (ps @ [x]) = (dx, Some (fst x), Some (snd x))"
      using True f by (simp add: scanStep_def dx_def)
    have "ps @ [x] = ps @ (fst x, snd x) # []" by simp
    moreover have "\<forall>ij\<in>set ps. distance2 (pts ! fst ij) (pts ! snd ij) < dx"
    proof
      fix ij assume "ij \<in> set ps"
      then have "distance2 (pts ! fst ij) (pts ! snd ij) \<le> m" using all by blast
      then show "distance2 (pts ! fst ij) (pts ! snd ij) < dx" using True by simp
    qed
    moreover have "m0 < dx" using le True by simp
    ultimately have "\<exists>pre i j post. ps @ [x] = pre @ (i, j) # post \<and>
         Some (fst x) = Some i \<and> Some (snd x) = Some j \<and>
         dx = distance2 (pts ! i) (pts ! j) \<and> m0 < dx \<and>
         (\<forall>ij\<in>set pre. distance2 (pts ! fst ij) (pts ! snd ij) < dx) \<and>
         (\<forall>ij\<in>set post. distance2 (pts ! fst ij) (pts ! snd ij) \<le> dx)"
      by (intro exI [of _ ps] exI [of _ "fst x"] exI [of _ "snd x"] exI [of _ "[]"])
         (simp add: dx_def)
    then show ?thesis using fr by blast
  next
    case False
    then have r: "foldl (scanStep pts) (m0, a0, b0) (ps @ [x]) = (m, a, b)"
      using f by (simp add: scanStep_def dx_def)
    from c show ?thesis
    proof
      assume h: "m = m0 \<and> a = a0 \<and> b = b0 \<and>
        (\<forall>ij\<in>set ps. distance2 (pts ! fst ij) (pts ! snd ij) \<le> m0)"
      then have "m = m0 \<and> a = a0 \<and> b = b0 \<and>
        (\<forall>ij\<in>set (ps @ [x]). distance2 (pts ! fst ij) (pts ! snd ij) \<le> m0)"
        using False by (simp add: dx_def)
      then show ?thesis using r by blast
    next
      assume "\<exists>pre i j post. ps = pre @ (i, j) # post \<and> a = Some i \<and> b = Some j \<and>
         m = distance2 (pts ! i) (pts ! j) \<and> m0 < m \<and>
         (\<forall>ij\<in>set pre. distance2 (pts ! fst ij) (pts ! snd ij) < m) \<and>
         (\<forall>ij\<in>set post. distance2 (pts ! fst ij) (pts ! snd ij) \<le> m)"
      then obtain pre i j post where h: "ps = pre @ (i, j) # post" "a = Some i" "b = Some j"
         "m = distance2 (pts ! i) (pts ! j)" "m0 < m"
         "\<forall>ij\<in>set pre. distance2 (pts ! fst ij) (pts ! snd ij) < m"
         "\<forall>ij\<in>set post. distance2 (pts ! fst ij) (pts ! snd ij) \<le> m"
        by blast
      have "ps @ [x] = pre @ (i, j) # (post @ [x])" using h(1) by simp
      moreover have "\<forall>ij\<in>set (post @ [x]). distance2 (pts ! fst ij) (pts ! snd ij) \<le> m"
        using h(7) False by (auto simp: dx_def)
      ultimately have "\<exists>pre i j post. ps @ [x] = pre @ (i, j) # post \<and> a = Some i \<and> b = Some j \<and>
         m = distance2 (pts ! i) (pts ! j) \<and> m0 < m \<and>
         (\<forall>ij\<in>set pre. distance2 (pts ! fst ij) (pts ! snd ij) < m) \<and>
         (\<forall>ij\<in>set post. distance2 (pts ! fst ij) (pts ! snd ij) \<le> m)"
        using h(2-6) by blast
      then show ?thesis using r by blast
    qed
  qed
qed


lemma scanPairs_mem: "(i, j) \<in> set (scanPairs n) \<longleftrightarrow> i < j \<and> j < n"
proof
  assume "(i, j) \<in> set (scanPairs n)"
  then show "i < j \<and> j < n" by (auto simp: scanPairs_def)
next
  assume h: "i < j \<and> j < n"
  then have "i \<in> set [0 ..< n]" "j \<in> set [i + 1 ..< n]" by simp_all
  then show "(i, j) \<in> set (scanPairs n)" unfolding scanPairs_def by fastforce
qed

lemma upt_0_4: "[0 ..< 4] = [0, 1, 2, 3]"
  by (simp add: upt_rec)

lemma length_four: "length xs = 4 \<Longrightarrow> \<exists>a b c d. xs = [a, b, c, d]"
  by (auto simp: eval_nat_numeral length_Suc_conv)

lemma erase_pair:
  assumes "(i, j) \<in> set (scanPairs 4)"
  shows "(case erase [a, b, c, d] j of Inl e \<Rightarrow> Inl e | Inr rest \<Rightarrow> erase rest i) =
         Inr (map ((!) [a, b, c, d]) (filter (\<lambda>k. k \<noteq> i \<and> k \<noteq> j) [0 ..< 4]))"
proof -
  from assms have "(i, j) = (0, 1) \<or> (i, j) = (0, 2) \<or> (i, j) = (0, 3) \<or>
      (i, j) = (1, 2) \<or> (i, j) = (1, 3) \<or> (i, j) = (2, 3)"
    by (simp add: scanPairs_4)
  then show ?thesis
    by (elim disjE) (simp_all add: erase_def upt_0_4)
qed

lemma farthestScan_cases:
  assumes "length pts = 4"
  shows "(farthestScan pts = (0, None, None) \<and>
          (\<forall>ij\<in>set (scanPairs 4). distance2 (pts ! fst ij) (pts ! snd ij) \<le> 0)) \<or>
         (\<exists>pre i j post. scanPairs 4 = pre @ (i, j) # post \<and>
            farthestScan pts = (distance2 (pts ! i) (pts ! j), Some i, Some j) \<and>
            0 < distance2 (pts ! i) (pts ! j) \<and>
            (\<forall>ij\<in>set pre. distance2 (pts ! fst ij) (pts ! snd ij) < distance2 (pts ! i) (pts ! j)) \<and>
            (\<forall>ij\<in>set post. distance2 (pts ! fst ij) (pts ! snd ij) \<le> distance2 (pts ! i) (pts ! j)))"
  using scan_fold [of pts 0 None None "scanPairs 4"] assms
  unfolding farthestScan_def by auto

lemma all_pairs_le:
  assumes "\<forall>ij\<in>set (scanPairs 4). distance2 (pts ! fst ij) (pts ! snd ij) \<le> m" and "0 \<le> m"
  shows "\<forall>i<4. \<forall>j<4. distance2 (pts ! i) (pts ! j) \<le> m"
proof (intro allI impI)
  fix i j :: nat assume i: "i < 4" and j: "j < 4"
  consider "i < j" | "j < i" | "i = j" by linarith
  then show "distance2 (pts ! i) (pts ! j) \<le> m"
  proof cases
    case 1
    then have "(i, j) \<in> set (scanPairs 4)" using j by (simp add: scanPairs_mem)
    then show ?thesis using assms(1) by force
  next
    case 2
    then have "(j, i) \<in> set (scanPairs 4)" using i by (simp add: scanPairs_mem)
    then have "distance2 (pts ! j) (pts ! i) \<le> m" using assms(1) by force
    then show ?thesis by (simp add: distance2_sym)
  next
    case 3
    then show ?thesis using assms(2) by (simp add: distance2_self)
  qed
qed

lemma farthestScan_literal:
  "farthestScan [a, b, c, d] =
     foldl (scanStep [a, b, c, d]) (0, None, None) [(0, 1), (0, 2), (0, 3), (1, 2), (1, 3), (2, 3)]"
proof -
  have "length [a, b, c, d] = 4" by simp
  then show ?thesis unfolding farthestScan_def by (simp only: scanPairs_4)
qed

lemma erase_pair_two:
  assumes "(i, j) \<in> set (scanPairs 4)"
  shows "\<exists>p q. (case erase [a, b, c, d] j of Inl e \<Rightarrow> Inl e | Inr rest \<Rightarrow> erase rest i) = Inr [p, q]
           \<and> p \<in> set [a, b, c, d] \<and> q \<in> set [a, b, c, d]"
proof -
  from assms have "(i, j) = (0, 1) \<or> (i, j) = (0, 2) \<or> (i, j) = (0, 3) \<or>
      (i, j) = (1, 2) \<or> (i, j) = (1, 3) \<or> (i, j) = (2, 3)"
    by (simp add: scanPairs_4)
  then show ?thesis
    by (elim disjE) (simp_all add: erase_def)
qed

lemma reduceFour_four:
  assumes len: "length pts = 4"
  shows "reduceFour pts = Inl Uninitialized \<or>
         (\<exists>p q. reduceFour pts = Inr [p, q] \<and> p \<in> set pts \<and> q \<in> set pts)"
proof -
  obtain a b c d where pts: "pts = [a, b, c, d]" using length_four [OF len] by blast
  from farthestScan_cases [OF len] show ?thesis
  proof
    assume "farthestScan pts = (0, None, None) \<and>
          (\<forall>ij\<in>set (scanPairs 4). distance2 (pts ! fst ij) (pts ! snd ij) \<le> 0)"
    then show ?thesis using len by (simp add: reduceFour_def)
  next
    assume "\<exists>pre i j post. scanPairs 4 = pre @ (i, j) # post \<and>
            farthestScan pts = (distance2 (pts ! i) (pts ! j), Some i, Some j) \<and>
            0 < distance2 (pts ! i) (pts ! j) \<and>
            (\<forall>ij\<in>set pre. distance2 (pts ! fst ij) (pts ! snd ij) < distance2 (pts ! i) (pts ! j)) \<and>
            (\<forall>ij\<in>set post. distance2 (pts ! fst ij) (pts ! snd ij) \<le> distance2 (pts ! i) (pts ! j))"
    then obtain pre i j post where sp: "scanPairs 4 = pre @ (i, j) # post"
      and fs: "farthestScan pts = (distance2 (pts ! i) (pts ! j), Some i, Some j)"
      by blast
    have mem: "(i, j) \<in> set (scanPairs 4)" using sp by simp
    from erase_pair_two [OF mem, of a b c d] fs len show ?thesis
      unfolding pts reduceFour_def by simp
  qed
qed

lemma reduceFour_other: "length pts \<noteq> 4 \<Longrightarrow> reduceFour pts = Inr pts"
  by (simp add: reduceFour_def)

lemma checkValid_two: "checkValid segs (p # q # rest) \<noteq> Inl e"
  by (induction segs) simp_all

lemma checkValid_empty: "segs \<noteq> [] \<Longrightarrow> checkValid segs [] = Inl OutOfBounds"
  by (cases segs) simp_all

lemma checkValid_single:
  "checkValid segs [p] = (if \<exists>s\<in>set segs. isInSegment p s then Inl OutOfBounds else Inr None)"
  by (induction segs) simp_all

lemma probe_two_in_bounds:
  assumes two: "2 \<le> length (collectIntersections segs hl)"
  shows "probe segs hl \<noteq> Inl OutOfBounds"
proof (cases "length (collectIntersections segs hl) = 4")
  case True
  from reduceFour_four [OF True] show ?thesis
    by (auto simp: probe_def checkValid_two)
next
  case False
  obtain p q rest where "collectIntersections segs hl = p # q # rest"
    using two by (cases "collectIntersections segs hl" rule: remdups_adj.cases) auto
  then show ?thesis using False
    by (simp add: probe_def reduceFour_other checkValid_two)
qed

lemmas eval_defs = toSegments_list hatch_defs sweep.simps geom_defs farthestScan_literal
  scanStep_def erase_def

lemma iteration_error:
  "probe segs (Line_np (hatchNorm st) (point st)) = Inl e \<Longrightarrow> iteration rect segs st = Inl e"
  by (simp add: iteration_def)

lemma iteration_found:
  "probe segs (Line_np (hatchNorm st) (point st)) = Inr (Some seg) \<Longrightarrow>
   iteration rect segs st =
     Inr (st\<lparr>isContinue := True, res := res st @ [seg], firstIter := False,
            point := Point_plus (point st) (hatchNorm st)\<rparr>)"
  by (simp add: iteration_def)

lemma iteration_none_flip:
  "probe segs (Line_np (hatchNorm st) (point st)) = Inr None \<Longrightarrow> forward st \<Longrightarrow> \<not> firstIter st \<Longrightarrow>
   iteration rect segs st =
     Inr (st\<lparr>isContinue := True, forward := False,
            hatchNorm := Vector_times (hatchNorm st) (- 1), firstIter := False,
            point := Point_plus (points rect 0) (Vector_times (hatchNorm st) (- 1))\<rparr>)"
  by (simp add: iteration_def)

lemma iteration_none_stay:
  "probe segs (Line_np (hatchNorm st) (point st)) = Inr None \<Longrightarrow> \<not> (forward st \<and> \<not> firstIter st) \<Longrightarrow>
   iteration rect segs st =
     Inr (st\<lparr>isContinue := False, firstIter := False,
            point := Point_plus (point st) (hatchNorm st)\<rparr>)"
  by (auto simp: iteration_def)

lemma sweep_stop: "\<not> forward st \<Longrightarrow> \<not> isContinue st \<Longrightarrow> sweep rect segs st = Some (Inr (res st))"
  by (subst sweep.simps) simp

lemma sweep_error:
  "forward st \<or> isContinue st \<Longrightarrow> iteration rect segs st = Inl e \<Longrightarrow>
     sweep rect segs st = Some (Inl e)"
  by (subst sweep.simps) auto

lemma sweep_step:
  "forward st \<or> isContinue st \<Longrightarrow> iteration rect segs st = Inr st' \<Longrightarrow>
     sweep rect segs st = sweep rect segs st'"
  by (subst sweep.simps) auto

section \<open>Facts about rounding\<close>

lemma roundEven_int: "roundEven (of_int z) = z"
  by (simp add: roundEven_def)

lemma roundEven_near:
  assumes "\<bar>d\<bar> < 1 / 2"
  shows "roundEven (of_int m + d) = m"
proof (cases "0 \<le> d")
  case True
  then have "\<lfloor>of_int m + d\<rfloor> = m" using assms by (intro floor_unique) simp_all
  then show ?thesis using assms True by (simp add: roundEven_def)
next
  case False
  then have f: "\<lfloor>of_int m + d\<rfloor> = m - 1" using assms by (intro floor_unique) simp_all
  have "\<not> (of_int m + d - of_int (m - 1) < 1 / 2)" using assms False by simp
  moreover have "1 / 2 < of_int m + d - of_int (m - 1)" using assms False by simp
  ultimately show ?thesis unfolding roundEven_def f Let_def by simp
qed

lemma floor_log2_less:
  assumes "0 < a" "a < 2 powi n"
  shows "\<lfloor>log 2 a\<rfloor> < n"
proof -
  have "a < 2 powr (real_of_int n)" using assms(2) by (simp add: powr_real_of_int')
  then have "log 2 a < of_int n" using assms(1) by (simp add: log_less_iff)
  then show ?thesis by (simp add: floor_less_iff)
qed

lemma floor_log2_eq:
  assumes "0 < a" "2 powi n \<le> a" "a < 2 powi (n + 1)"
  shows "\<lfloor>log 2 a\<rfloor> = n"
proof -
  have "2 powr (real_of_int n) \<le> a" using assms(2) by (simp add: powr_real_of_int')
  moreover have "(2::real) powr (real_of_int (n + 1)) = 2 powi (n + 1)"
    by (rule powr_real_of_int') simp_all
  then have "a < 2 powr (real_of_int n + 1)" using assms(3) by simp
  ultimately show ?thesis using assms(1) by (simp add: floor_log_eq_powr_iff)
qed

lemma toDouble_representable:
  assumes x: "x = of_int m * 2 powi k" and m: "\<bar>m\<bar> < 2 ^ 53" and k: "- 1074 \<le> k" "k \<le> 971"
  shows "toDouble x = Finite x"
proof (cases "x = 0")
  case True
  then show ?thesis by (simp add: toDouble_def)
next
  case False
  define e where "e = ulpExp x"
  have m0: "m \<noteq> 0" using False x by auto
  have ax: "\<bar>x\<bar> = of_int \<bar>m\<bar> * 2 powi k" by (simp add: x abs_mult)
  have "of_int \<bar>m\<bar> < (2 ^ 53 :: real)" using m by (metis of_int_less_iff of_int_numeral of_int_power)
  then have "\<bar>x\<bar> < 2 ^ 53 * 2 powi k" unfolding ax by (simp)
  also have "\<dots> = 2 powi (53 + k)" by (simp add: power_int_add)
  finally have lt: "\<bar>x\<bar> < 2 powi (53 + k)" .
  have "\<lfloor>log 2 \<bar>x\<bar>\<rfloor> < 53 + k" using False lt by (intro floor_log2_less) simp_all
  then have ek: "e \<le> k" using k unfolding e_def ulpExp_def by linarith
  define j where "j = nat (k - e)"
  have kj: "k = e + int j" using ek by (simp add: j_def)
  have q: "x / 2 powi e = of_int (m * 2 ^ j)"
    by (simp add: x kj power_int_add)
  have y: "of_int (roundEven (x / 2 powi e)) * 2 powi e = x"
    unfolding q roundEven_int by (simp add: x kj power_int_add)
  have "\<bar>x\<bar> < 2 powi 1024"
  proof -
    have "(2::real) powi (53 + k) \<le> 2 powi 1024" using k by (intro power_int_increasing) simp_all
    then show ?thesis using lt by linarith
  qed
  then have b: "\<not> 2 ^ 1024 \<le> x" "\<not> x \<le> - (2 ^ 1024)" by (simp_all add: abs_less_iff)
  show ?thesis using False b unfolding toDouble_def Let_def e_def [symmetric] y by simp
qed


lemma ulpExp_normal:
  assumes "2 powi n \<le> \<bar>x\<bar>" "\<bar>x\<bar> < 2 powi (n + 1)" "- 1022 \<le> n"
  shows "ulpExp x = n - 52"
proof -
  have "0 < \<bar>x\<bar>" using assms(1) by (smt (verit) zero_less_power_int)
  then have "\<lfloor>log 2 \<bar>x\<bar>\<rfloor> = n" using assms(1,2) by (intro floor_log2_eq)
  then show ?thesis using assms(3) unfolding ulpExp_def by linarith
qed


lemma toDouble_round:
  assumes "x \<noteq> 0" and e: "ulpExp x = e"
    and q: "x / 2 powi e = of_int m + d" and d: "\<bar>d\<bar> < 1 / 2"
    and b: "\<bar>of_int m * 2 powi e\<bar> < (2 ^ 1024 :: real)"
  shows "toDouble x = Finite (of_int m * 2 powi e)"
proof -
  have r: "roundEven (x / 2 powi e) = m" unfolding q using d by (rule roundEven_near)
  have "\<not> 2 ^ 1024 \<le> of_int m * (2::real) powi e" "\<not> of_int m * (2::real) powi e \<le> - (2 ^ 1024)"
    using b by (simp_all add: abs_less_iff)
  then show ?thesis using assms(1) unfolding toDouble_def Let_def e r by simp
qed


lemma toDouble_0: "toDouble 0 = Finite 0"
  by (simp add: toDouble_def)

lemma toDouble_int:
  assumes "\<bar>m\<bar> < 2 ^ 53"
  shows "toDouble (of_int m) = Finite (of_int m)"
  using toDouble_representable [of "of_int m" m 0] assms by simp

lemma toDouble_numeral:
  "(numeral k :: int) < 2 ^ 53 \<Longrightarrow> toDouble (numeral k) = Finite (numeral k)"
  using toDouble_int [of "numeral k"] by simp

lemma toDouble_neg_numeral:
  "(numeral k :: int) < 2 ^ 53 \<Longrightarrow> toDouble (- numeral k) = Finite (- numeral k)"
  using toDouble_int [of "- numeral k"] by simp

lemma toDouble_1: "toDouble 1 = Finite 1"
  using toDouble_int [of 1] by simp


lemma ten_plus_tiny: "toDouble (1 / 2 ^ 1022 + 10) = Finite 10"
proof -
  have e: "ulpExp (1 / 2 ^ 1022 + 10) = 3 - 52"
    by (rule ulpExp_normal) (simp_all add: power_int_minus_divide)
  have "toDouble (1 / 2 ^ 1022 + 10) = Finite (of_int (10 * 2 ^ 49) * 2 powi (- 49))"
  proof (rule toDouble_round [where d = "2 ^ 49 / 2 ^ 1022"])
    show "ulpExp (1 / 2 ^ 1022 + 10) = - 49" using e by simp
    show "(1 / 2 ^ 1022 + 10 :: real) / 2 powi (- 49) = of_int (10 * 2 ^ 49) + 2 ^ 49 / 2 ^ 1022"
      by (simp add: power_int_minus_divide algebra_simps)
    show "\<bar>2 ^ 49 / 2 ^ 1022 :: real\<bar> < 1 / 2" by simp
    show "\<bar>of_int (10 * 2 ^ 49) * 2 powi (- 49)\<bar> < (2 ^ 1024 :: real)"
      by (simp add: power_int_minus_divide)
  qed simp
  then show ?thesis by (simp add: power_int_minus_divide)
qed











lemmas toDouble_eval = toDouble_0 toDouble_1 toDouble_numeral toDouble_neg_numeral

lemma DBL_MIN_plus_ten: "toDouble (DBL_MIN - (- 10)) = Finite 10"
  using ten_plus_tiny by (simp add: DBL_MIN_def)

section \<open>The square of side 10 hatched at angle 0 with step 5\<close>

text \<open>
  Claim C2.  \<^verbatim>\<open>generateHatch\<close> on the square with corners (0,0), (10,0), (10,10), (0,10),
  angle 0 and step 5 returns exactly one segment, from (0,5) to (10,5).  The probes are at
  \<open>y = 0\<close> (both candidates are corners: nothing), \<open>y = 5\<close> (the segment), \<open>y = 10\<close>
  (corners again: the sweep turns back) and \<open>y = - 5\<close> (outside: the sweep ends).  The
  coordinates are the exact values, so they are within \<open>EPS\<close> of them.
\<close>

theorem generateHatch_square_midline:
  "generateHatch square10 0 5 = Some (Inr [mkSegment (mkPoint 0 5) (mkPoint 10 5)])"
  by (simp add: square10_def toSegments_list hatch_defs sweep.simps geom_defs)

section \<open>Containment in a segment\<close>




section \<open>Intersection of two lines\<close>

text \<open>
  Claim C4.  When the determinant \<open>l1.a * l2.b - l2.a * l1.b\<close> is not zero, the point
  returned by \<^verbatim>\<open>linesIntersection\<close> satisfies the equation \<open>a x + b y + c = 0\<close> of both
  lines, in exact arithmetic.
\<close>

theorem linesIntersection_satisfies_both:
  "la l1 * lb l2 - la l2 * lb l1 \<noteq> 0 \<Longrightarrow>
     la l1 * px (linesIntersection l1 l2) + lb l1 * py (linesIntersection l1 l2) + lc l1 = 0 \<and>
     la l2 * px (linesIntersection l1 l2) + lb l2 * py (linesIntersection l1 l2) + lc l2 = 0"
  by (simp add: intersection_on_lines)

theorem linesIntersection_satisfies_both_witness:
  "la \<lparr>la = 1, lb = 2, lc = 3\<rparr> * lb \<lparr>la = 4, lb = 5, lc = 6\<rparr>
     - la \<lparr>la = 4, lb = 5, lc = 6\<rparr> * lb \<lparr>la = 1, lb = 2, lc = 3\<rparr> \<noteq> (0::real) \<and>
   1 * px (linesIntersection \<lparr>la = 1, lb = 2, lc = 3\<rparr> \<lparr>la = 4, lb = 5, lc = 6\<rparr>)
     + 2 * py (linesIntersection \<lparr>la = 1, lb = 2, lc = 3\<rparr> \<lparr>la = 4, lb = 5, lc = 6\<rparr>) + 3 = 0"
  using linesIntersection_satisfies_both [of "\<lparr>la = 1, lb = 2, lc = 3\<rparr>" "\<lparr>la = 4, lb = 5, lc = 6\<rparr>"]
  by simp

section \<open>The edges of a rectangle\<close>

text \<open>
  Claim C6 says that the first segment of \<^verbatim>\<open>toSegments\<close> runs from \<open>points[3]\<close> to
  \<open>points[0]\<close>.  The code builds it with \<^verbatim>\<open>res.emplace_back(points[0], points[size - 1])\<close>,
  which runs from \<open>points[0]\<close> to \<open>points[3]\<close>; the other three segments are as the claim
  says.  Evaluated on the square of side 10.
\<close>

theorem toSegments_closing_edge_reversed:
  "toSegments square10 =
     [mkSegment (points square10 0) (points square10 3),
      mkSegment (points square10 0) (points square10 1),
      mkSegment (points square10 1) (points square10 2),
      mkSegment (points square10 2) (points square10 3)] \<and>
   hd (toSegments square10) \<noteq> mkSegment (points square10 3) (points square10 0)"
  by (simp add: square10_def toSegments_list mkSegment_def mkPoint_def)

text \<open>
  Claim C7 says that every corner is the start of exactly one segment and the end of
  exactly one other.  With the first segment running from \<open>points[0]\<close> to \<open>points[3]\<close>,
  the corner \<open>points[0]\<close> starts two segments and ends none, and \<open>points[3]\<close> ends two
  and starts none.  Evaluated on the square of side 10.
\<close>

theorem toSegments_first_corner_starts_twice:
  "count_list (map sa (toSegments square10)) (points square10 0) = 2 \<and>
   count_list (map sb (toSegments square10)) (points square10 0) = 0 \<and>
   count_list (map sa (toSegments square10)) (points square10 3) = 0 \<and>
   count_list (map sb (toSegments square10)) (points square10 3) = 2"
  by (simp add: square10_def toSegments_list mkSegment_def mkPoint_def)

section \<open>The bounding box of the renderer on negative coordinates\<close>

text \<open>
  Claim C8 says that \<open>maxX\<close> and \<open>maxY\<close> are the greatest endpoint coordinates also when
  every coordinate is negative.  The maxima start at \<^verbatim>\<open>std::numeric_limits<double>::min()\<close>,
  the smallest positive double, so on the square with corners between \<open>- 10\<close> and \<open>- 5\<close>
  they stay at that value instead of \<open>- 5\<close>; the width and the height of the box round to
  10 instead of 5, and the scale on a 400 by 400 canvas is 40 instead of 80.
\<close>

theorem boundingBox_negative_coordinates:
  "boundingBox [(HATCH, []), (CONTOUR, toSegments negativeSquare)] =
     \<lparr>minX = - 10, minY = - 10, maxX = DBL_MIN, maxY = DBL_MIN\<rparr> \<and>
   DBL_MIN \<noteq> - 5 \<and>
   drawScale \<lparr>formatSegments = [(HATCH, []), (CONTOUR, toSegments negativeSquare)],
              width = 400, height = 400\<rparr> = Finite 40 \<and>
   (40::real) \<noteq> min (400 / (- 5 - (- 10))) (400 / (- 5 - (- 10)))"
proof -
  have bb: "boundingBox [(HATCH, []), (CONTOUR, toSegments negativeSquare)] =
     \<lparr>minX = - 10, minY = - 10, maxX = DBL_MIN, maxY = DBL_MIN\<rparr>"
    using DBL_MIN_pos DBL_MAX_pos
    by (simp add: boundingBox_def initialBox_def boxStep_def negativeSquare_def toSegments_list
        mkSegment_def mkPoint_def)
  have ne: "DBL_MIN \<noteq> - 5" using DBL_MIN_pos by simp
  have w: "dsub (Finite DBL_MIN) (Finite (- 10)) = Finite 10"
    by (simp only: dsub.simps DBL_MIN_plus_ten)
  have q: "ddiv (Finite 400) (Finite 10) = Finite 40"
    by (simp add: toDouble_eval)
  have sc: "drawScale \<lparr>formatSegments = [(HATCH, []), (CONTOUR, toSegments negativeSquare)],
              width = 400, height = 400\<rparr> = Finite 40"
    unfolding drawScale_def Let_def SVGWriter.simps bb BoundingBox.simps w q
    by (simp add: dmin_def)
  show ?thesis using bb ne sc by simp
qed

section \<open>The first probe\<close>

text \<open>
  Claim C5 says that the sweep ends at once when the first probe finds no candidate inside
  an edge.  On the square of side 10 with angle 0 and step 4 the first probe, through the
  corner (0,0), finds none, and the sweep goes on to emit two segments.
\<close>

theorem first_probe_empty_then_two_segments:
  "probe (toSegments square10) (Line_np (mkVector 0 4) (points square10 0)) = Inr None \<and>
   generateHatch square10 0 4 =
     Some (Inr [mkSegment (mkPoint 0 4) (mkPoint 10 4), mkSegment (mkPoint 0 8) (mkPoint 10 8)])"
  by (simp add: square10_def eval_defs)

text \<open>
  Claim C5, amended.  When the first probe finds no candidate inside an edge (and reads
  nothing out of bounds), the loop goes on: \<open>forward\<close> is still true, nothing has been
  emitted, and the next probe is at \<open>points[0] + hatchNorm\<close>.  A later probe without a
  candidate in the forward phase turns the sweep back (the loop goes on from
  \<open>points[0] - hatchNorm\<close>); only in the backward phase does it end the sweep, and the
  segments found so far are returned.
\<close>

theorem first_probe_without_candidate_continues:
  "(hn = Vector_times (mkVector (sin (angle * pi / 180)) (cos (angle * pi / 180))) step \<and>
    probe (toSegments rect) (Line_np hn (points rect 0)) = Inr None \<longrightarrow>
      generateHatch rect angle step =
        sweep rect (toSegments rect)
          \<lparr>forward = True, isContinue = False, firstIter = False,
           point = Point_plus (points rect 0) hn, hatchNorm = hn, res = []\<rparr>) \<and>
   (forward st \<and> \<not> firstIter st \<and> probe segs (Line_np (hatchNorm st) (point st)) = Inr None \<longrightarrow>
      sweep rect segs st =
        sweep rect segs
          (st\<lparr>isContinue := True, forward := False,
              hatchNorm := Vector_times (hatchNorm st) (- 1), firstIter := False,
              point := Point_plus (points rect 0) (Vector_times (hatchNorm st) (- 1))\<rparr>)) \<and>
   (\<not> forward st \<and> probe segs (Line_np (hatchNorm st) (point st)) = Inr None \<longrightarrow>
      sweep rect segs st = Some (Inr (res st)))"
proof (intro conjI impI)
  assume h: "hn = Vector_times (mkVector (sin (angle * pi / 180)) (cos (angle * pi / 180))) step \<and>
    probe (toSegments rect) (Line_np hn (points rect 0)) = Inr None"
  from h have hn: "hn = Vector_times (mkVector (sin (angle * pi / 180)) (cos (angle * pi / 180))) step"
    and pr0: "probe (toSegments rect) (Line_np hn (points rect 0)) = Inr None"
    by blast+
  have pr: "probe (toSegments rect)
      (Line_np (hatchNorm (initialState rect hn)) (point (initialState rect hn))) = Inr None"
    using pr0 by (simp add: initialState_def)
  have nf: "\<not> (forward (initialState rect hn) \<and> \<not> firstIter (initialState rect hn))"
    by (simp add: initialState_def)
  have "iteration rect (toSegments rect) (initialState rect hn) =
      Inr \<lparr>forward = True, isContinue = False, firstIter = False,
           point = Point_plus (points rect 0) hn, hatchNorm = hn, res = []\<rparr>"
    using iteration_none_stay [OF pr nf, of rect] by (simp add: initialState_def)
  then have "sweep rect (toSegments rect) (initialState rect hn) =
      sweep rect (toSegments rect)
          \<lparr>forward = True, isContinue = False, firstIter = False,
           point = Point_plus (points rect 0) hn, hatchNorm = hn, res = []\<rparr>"
    by (intro sweep_step) (simp_all add: initialState_def)
  then show "generateHatch rect angle step =
        sweep rect (toSegments rect)
          \<lparr>forward = True, isContinue = False, firstIter = False,
           point = Point_plus (points rect 0) hn, hatchNorm = hn, res = []\<rparr>"
    unfolding generateHatch_def Let_def hn [symmetric] by simp
next
  assume h: "forward st \<and> \<not> firstIter st \<and> probe segs (Line_np (hatchNorm st) (point st)) = Inr None"
  then have "iteration rect segs st =
      Inr (st\<lparr>isContinue := True, forward := False,
              hatchNorm := Vector_times (hatchNorm st) (- 1), firstIter := False,
              point := Point_plus (points rect 0) (Vector_times (hatchNorm st) (- 1))\<rparr>)"
    by (intro iteration_none_flip) simp_all
  then show "sweep rect segs st =
        sweep rect segs
          (st\<lparr>isContinue := True, forward := False,
              hatchNorm := Vector_times (hatchNorm st) (- 1), firstIter := False,
              point := Point_plus (points rect 0) (Vector_times (hatchNorm st) (- 1))\<rparr>)"
    using h by (intro sweep_step) simp_all
next
  assume h: "\<not> forward st \<and> probe segs (Line_np (hatchNorm st) (point st)) = Inr None"
  show "sweep rect segs st = Some (Inr (res st))"
  proof (cases "isContinue st")
    case False
    then show ?thesis using h by (simp add: sweep_stop)
  next
    case True
    define st' where "st' = st\<lparr>isContinue := False, firstIter := False,
            point := Point_plus (point st) (hatchNorm st)\<rparr>"
    have "iteration rect segs st = Inr st'"
      using h unfolding st'_def by (intro iteration_none_stay) simp_all
    then have "sweep rect segs st = sweep rect segs st'"
      using True by (intro sweep_step) simp_all
    moreover have "sweep rect segs st' = Some (Inr (res st'))"
      using h by (intro sweep_stop) (simp_all add: st'_def)
    ultimately show ?thesis by (simp add: st'_def)
  qed
qed

theorem first_probe_without_candidate_continues_witness:
  "generateHatch square10 0 5 =
     sweep square10 (toSegments square10)
       \<lparr>forward = True, isContinue = False, firstIter = False,
        point = Point_plus (points square10 0) (mkVector 0 5), hatchNorm = mkVector 0 5, res = []\<rparr> \<and>
   sweep square10 (toSegments square10)
     \<lparr>forward = True, isContinue = True, firstIter = False,
      point = mkPoint 0 10, hatchNorm = mkVector 0 5,
      res = [mkSegment (mkPoint 0 5) (mkPoint 10 5)]\<rparr> =
   sweep square10 (toSegments square10)
     \<lparr>forward = False, isContinue = True, firstIter = False,
      point = Point_plus (points square10 0) (Vector_times (mkVector 0 5) (- 1)),
      hatchNorm = Vector_times (mkVector 0 5) (- 1),
      res = [mkSegment (mkPoint 0 5) (mkPoint 10 5)]\<rparr> \<and>
   sweep square10 (toSegments square10)
     \<lparr>forward = False, isContinue = True, firstIter = False,
      point = mkPoint 0 (- 5), hatchNorm = mkVector 0 (- 5),
      res = [mkSegment (mkPoint 0 5) (mkPoint 10 5)]\<rparr> =
     Some (Inr [mkSegment (mkPoint 0 5) (mkPoint 10 5)])"
proof -
  have a: "mkVector 0 5 = Vector_times (mkVector (sin (0 * pi / 180)) (cos (0 * pi / 180))) 5"
    by (simp add: Vector_times_def mkVector_def)
  have b: "probe (toSegments square10) (Line_np (mkVector 0 5) (points square10 0)) = Inr None"
    by (simp add: square10_def eval_defs)
  have c: "probe (toSegments square10) (Line_np (mkVector 0 5) (mkPoint 0 10)) = Inr None"
    by (simp add: square10_def eval_defs)
  have d: "probe (toSegments square10) (Line_np (mkVector 0 (- 5)) (mkPoint 0 (- 5))) = Inr None"
    by (simp add: square10_def eval_defs)
  from a b
    first_probe_without_candidate_continues [of "mkVector 0 5" 0 5 square10]
  have first: "generateHatch square10 0 5 =
     sweep square10 (toSegments square10)
       \<lparr>forward = True, isContinue = False, firstIter = False,
        point = Point_plus (points square10 0) (mkVector 0 5), hatchNorm = mkVector 0 5, res = []\<rparr>"
    by blast
  from c
    first_probe_without_candidate_continues [of "mkVector 0 5" 0 5 square10
      "\<lparr>forward = True, isContinue = True, firstIter = False,
        point = mkPoint 0 10, hatchNorm = mkVector 0 5,
        res = [mkSegment (mkPoint 0 5) (mkPoint 10 5)]\<rparr>" "toSegments square10"]
  have second: "sweep square10 (toSegments square10)
     \<lparr>forward = True, isContinue = True, firstIter = False,
      point = mkPoint 0 10, hatchNorm = mkVector 0 5,
      res = [mkSegment (mkPoint 0 5) (mkPoint 10 5)]\<rparr> =
   sweep square10 (toSegments square10)
     \<lparr>forward = False, isContinue = True, firstIter = False,
      point = Point_plus (points square10 0) (Vector_times (mkVector 0 5) (- 1)),
      hatchNorm = Vector_times (mkVector 0 5) (- 1),
      res = [mkSegment (mkPoint 0 5) (mkPoint 10 5)]\<rparr>"
    by simp
  from d
    first_probe_without_candidate_continues [of "mkVector 0 5" 0 5 square10
      "\<lparr>forward = False, isContinue = True, firstIter = False,
        point = mkPoint 0 (- 5), hatchNorm = mkVector 0 (- 5),
        res = [mkSegment (mkPoint 0 5) (mkPoint 10 5)]\<rparr>" "toSegments square10"]
  have third: "sweep square10 (toSegments square10)
     \<lparr>forward = False, isContinue = True, firstIter = False,
      point = mkPoint 0 (- 5), hatchNorm = mkVector 0 (- 5),
      res = [mkSegment (mkPoint 0 5) (mkPoint 10 5)]\<rparr> =
     Some (Inr [mkSegment (mkPoint 0 5) (mkPoint 10 5)])"
    by simp
  from first second third show ?thesis by blast
qed

section \<open>The unchecked reads of the intersections\<close>

text \<open>
  Claim C9 says that the reads of \<^verbatim>\<open>intersections.front()\<close> and \<^verbatim>\<open>intersections[1]\<close> are
  out of bounds whenever fewer than two intersections are collected.  For the thin
  quadrilateral, angle 0 and step 1, every probe (at \<open>y = 0\<close>, \<open>y = 1\<close> and \<open>y = - 1\<close>)
  collects exactly one intersection, and \<^verbatim>\<open>generateHatch\<close> returns the empty sequence
  without any read out of bounds: the one point is in no edge, so \<^verbatim>\<open>intersections[1]\<close>
  is never read.
\<close>

theorem single_intersection_without_out_of_bounds:
  "collectIntersections (toSegments thinQuad) (Line_np (mkVector 0 1) (mkPoint 0 0)) = [mkPoint 0 0] \<and>
   length (collectIntersections (toSegments thinQuad) (Line_np (mkVector 0 1) (mkPoint 0 1))) = 1 \<and>
   length (collectIntersections (toSegments thinQuad) (Line_np (mkVector 0 (- 1)) (mkPoint 0 (- 1)))) = 1 \<and>
   generateHatch thinQuad 0 1 = Some (Inr [])"
  by (simp add: thinQuad_def eval_defs)

text \<open>
  Claim C9, amended.  \<^verbatim>\<open>intersections.front()\<close> is read at every probe and
  \<^verbatim>\<open>intersections[1]\<close> only once the front point lies in an edge, both without a size
  check.  With at least two intersections collected no read is out of bounds; with none
  collected the read of \<^verbatim>\<open>front()\<close> is out of bounds; with exactly one collected the read
  of \<^verbatim>\<open>intersections[1]\<close> is out of bounds exactly when that point lies in some edge.
\<close>

theorem probe_reads_in_bounds:
  "(2 \<le> length (collectIntersections segs hl) \<longrightarrow> probe segs hl \<noteq> Inl OutOfBounds) \<and>
   (collectIntersections segs hl = [] \<and> segs \<noteq> [] \<longrightarrow> probe segs hl = Inl OutOfBounds) \<and>
   (\<forall>p. collectIntersections segs hl = [p] \<longrightarrow>
      (probe segs hl = Inl OutOfBounds \<longleftrightarrow> (\<exists>s\<in>set segs. isInSegment p s)))"
proof (intro conjI impI allI)
  assume "2 \<le> length (collectIntersections segs hl)"
  then show "probe segs hl \<noteq> Inl OutOfBounds"
    by (rule probe_two_in_bounds)
next
  assume "collectIntersections segs hl = [] \<and> segs \<noteq> []"
  then show "probe segs hl = Inl OutOfBounds"
    by (simp add: probe_def reduceFour_other checkValid_empty)
next
  fix p assume "collectIntersections segs hl = [p]"
  then show "probe segs hl = Inl OutOfBounds \<longleftrightarrow> (\<exists>s\<in>set segs. isInSegment p s)"
    by (simp add: probe_def reduceFour_other checkValid_single)
qed

theorem probe_reads_in_bounds_witness:
  "probe (toSegments square10) (Line_np (mkVector 0 5) (mkPoint 0 5)) \<noteq> Inl OutOfBounds \<and>
   probe (toSegments unitSquare) (Line_np (mkVector 0 (1 / 10 ^ 8)) (mkPoint 0 0)) = Inl OutOfBounds \<and>
   probe (toSegments thinQuad) (Line_np (mkVector 0 1) (mkPoint 0 0)) \<noteq> Inl OutOfBounds"
proof -
  have a: "2 \<le> length (collectIntersections (toSegments square10) (Line_np (mkVector 0 5) (mkPoint 0 5)))"
    by (simp add: square10_def eval_defs)
  have b: "collectIntersections (toSegments unitSquare) (Line_np (mkVector 0 (1 / 10 ^ 8)) (mkPoint 0 0)) = []
      \<and> toSegments unitSquare \<noteq> []"
    by (simp add: unitSquare_def eval_defs)
  have c: "collectIntersections (toSegments thinQuad) (Line_np (mkVector 0 1) (mkPoint 0 0)) = [mkPoint 0 0]"
    by (simp add: thinQuad_def eval_defs)
  have d: "\<not> (\<exists>s\<in>set (toSegments thinQuad). isInSegment (mkPoint 0 0) s)"
    by (simp add: thinQuad_def eval_defs)
  from a b c d
    probe_reads_in_bounds [of "toSegments square10" "Line_np (mkVector 0 5) (mkPoint 0 5)"]
    probe_reads_in_bounds [of "toSegments unitSquare" "Line_np (mkVector 0 (1 / 10 ^ 8)) (mkPoint 0 0)"]
    probe_reads_in_bounds [of "toSegments thinQuad" "Line_np (mkVector 0 1) (mkPoint 0 0)"]
  show ?thesis by blast
qed

section \<open>The reduction of four intersections to two\<close>

text \<open>
  Claim C10.  For four collected points with some positive pairwise squared distance, the
  scan assigns \<open>farthest1 < farthest2 < 4\<close>, the pair is a farthest pair, every pair
  scanned before it is strictly closer (it is the first farthest pair found), and the
  two erasures leave the other two points, in their order; every point is at most as far
  from any other as the removed two are from each other.  When all pairwise squared
  distances are zero the indices are never assigned and the erasures read them
  uninitialised.
\<close>

theorem reduceFour_farthest_pair:
  "length pts = 4 \<Longrightarrow>
   ((\<exists>i<4. \<exists>j<4. 0 < distance2 (pts ! i) (pts ! j)) \<longrightarrow>
      (\<exists>f1 f2 pre post.
         farthestScan pts = (distance2 (pts ! f1) (pts ! f2), Some f1, Some f2) \<and>
         f1 < f2 \<and> f2 < 4 \<and>
         scanPairs 4 = pre @ (f1, f2) # post \<and>
         (\<forall>ij\<in>set pre. distance2 (pts ! fst ij) (pts ! snd ij) < distance2 (pts ! f1) (pts ! f2)) \<and>
         (\<forall>i<4. \<forall>j<4. distance2 (pts ! i) (pts ! j) \<le> distance2 (pts ! f1) (pts ! f2)) \<and>
         reduceFour pts = Inr (map ((!) pts) (filter (\<lambda>k. k \<noteq> f1 \<and> k \<noteq> f2) [0 ..< 4])))) \<and>
   ((\<forall>i<4. \<forall>j<4. distance2 (pts ! i) (pts ! j) = 0) \<longrightarrow>
      farthestScan pts = (0, None, None) \<and> reduceFour pts = Inl Uninitialized)"
proof -
  assume len: "length pts = 4"
  from farthestScan_cases [OF len] show ?thesis
  proof
    assume h: "farthestScan pts = (0, None, None) \<and>
          (\<forall>ij\<in>set (scanPairs 4). distance2 (pts ! fst ij) (pts ! snd ij) \<le> 0)"
    then have "\<forall>i<4. \<forall>j<4. distance2 (pts ! i) (pts ! j) \<le> 0"
      using all_pairs_le [of pts 0] by simp
    then have no: "\<not> (\<exists>i<4. \<exists>j<4. 0 < distance2 (pts ! i) (pts ! j))"
      by (meson not_less)
    have "reduceFour pts = Inl Uninitialized"
      using h len by (simp add: reduceFour_def)
    then show ?thesis using h no by blast
  next
    assume "\<exists>pre i j post. scanPairs 4 = pre @ (i, j) # post \<and>
            farthestScan pts = (distance2 (pts ! i) (pts ! j), Some i, Some j) \<and>
            0 < distance2 (pts ! i) (pts ! j) \<and>
            (\<forall>ij\<in>set pre. distance2 (pts ! fst ij) (pts ! snd ij) < distance2 (pts ! i) (pts ! j)) \<and>
            (\<forall>ij\<in>set post. distance2 (pts ! fst ij) (pts ! snd ij) \<le> distance2 (pts ! i) (pts ! j))"
    then obtain pre f1 f2 post where sp: "scanPairs 4 = pre @ (f1, f2) # post"
      and fs: "farthestScan pts = (distance2 (pts ! f1) (pts ! f2), Some f1, Some f2)"
      and pos: "0 < distance2 (pts ! f1) (pts ! f2)"
      and pre: "\<forall>ij\<in>set pre. distance2 (pts ! fst ij) (pts ! snd ij) < distance2 (pts ! f1) (pts ! f2)"
      and post: "\<forall>ij\<in>set post. distance2 (pts ! fst ij) (pts ! snd ij) \<le> distance2 (pts ! f1) (pts ! f2)"
      by blast
    have mem: "(f1, f2) \<in> set (scanPairs 4)" using sp by simp
    then have ord: "f1 < f2" "f2 < 4" by (simp_all add: scanPairs_mem)
    have "\<forall>ij\<in>set (scanPairs 4). distance2 (pts ! fst ij) (pts ! snd ij) \<le> distance2 (pts ! f1) (pts ! f2)"
    proof
      fix ij assume "ij \<in> set (scanPairs 4)"
      then have "ij \<in> set pre \<or> ij = (f1, f2) \<or> ij \<in> set post" using sp by auto
      then show "distance2 (pts ! fst ij) (pts ! snd ij) \<le> distance2 (pts ! f1) (pts ! f2)"
      proof (elim disjE)
        assume "ij \<in> set pre"
        then have "distance2 (pts ! fst ij) (pts ! snd ij) < distance2 (pts ! f1) (pts ! f2)"
          using pre by blast
        then show ?thesis by simp
      next
        assume "ij = (f1, f2)"
        then show ?thesis by simp
      next
        assume "ij \<in> set post"
        then show ?thesis using post by blast
      qed
    qed
    then have mx: "\<forall>i<4. \<forall>j<4. distance2 (pts ! i) (pts ! j) \<le> distance2 (pts ! f1) (pts ! f2)"
      using all_pairs_le [of pts "distance2 (pts ! f1) (pts ! f2)"] pos by simp
    obtain a b c d where pts: "pts = [a, b, c, d]" using length_four [OF len] by blast
    have rf: "reduceFour pts = Inr (map ((!) pts) (filter (\<lambda>k. k \<noteq> f1 \<and> k \<noteq> f2) [0 ..< 4]))"
      using erase_pair [OF mem, of a b c d] fs len unfolding pts reduceFour_def by simp
    have nz: "\<not> (\<forall>i<4. \<forall>j<4. distance2 (pts ! i) (pts ! j) = 0)"
      using pos ord by (metis less_irrefl less_trans)
    show ?thesis using fs ord sp pre mx rf nz by blast
  qed
qed

theorem reduceFour_farthest_pair_witness:
  "(\<exists>f1 f2. f1 < f2 \<and> f2 < 4 \<and>
      reduceFour fourOnALine = Inr (map ((!) fourOnALine) (filter (\<lambda>k. k \<noteq> f1 \<and> k \<noteq> f2) [0 ..< 4]))) \<and>
   reduceFour fourCoincident = Inl Uninitialized"
proof -
  have l1: "length fourOnALine = 4" and l2: "length fourCoincident = 4"
    by (simp_all add: fourOnALine_def fourCoincident_def)
  have p: "\<exists>i<4. \<exists>j<4. 0 < distance2 (fourOnALine ! i) (fourOnALine ! j)"
    by (intro exI [of _ 0] exI [of _ 1] conjI)
       (simp_all add: fourOnALine_def distance2_def mkPoint_def)
  have z: "\<forall>i<4. \<forall>j<4. distance2 (fourCoincident ! i) (fourCoincident ! j) = 0"
    by (simp add: fourCoincident_def distance2_def nth_Cons split: nat.split)
  from reduceFour_farthest_pair [OF l1] p reduceFour_farthest_pair [OF l2] z
  show ?thesis by blast
qed



section \<open>A step too small for the parallelism test\<close>

text \<open>
  Claim C1 says that \<^verbatim>\<open>generateHatch\<close> returns a sequence of segments for every convex
  quadrilateral and every positive step.  On the unit square with angle 0 and step
  \<open>10\<^sup>-\<^sup>8\<close> every edge line is parallel to the hatch line within \<open>EPS\<close> (the cross
  products are \<open>0\<close> and \<open>10\<^sup>-\<^sup>8\<close>), no intersection is collected, and the first probe
  reads \<^verbatim>\<open>intersections.front()\<close> of an empty vector, against the comment of the code that
  there are four intersections or two.
\<close>

theorem tiny_step_reads_out_of_bounds:
  "convexQuad unitSquare \<and> (0::real) < 1 / 10 ^ 8 \<and>
   generateHatch unitSquare 0 (1 / 10 ^ 8) = Some (Inl OutOfBounds)"
  by (simp add: convexQuad_def turn_def unitSquare_def eval_defs)

end
